theory Spec2Isabelle
  imports Main "HOL-Library.Word"
begin

unbundle bit_operations_syntax

type_synonym u64 = "64 word"
type_synonym u8 = "8 word"

section \<open>MemoryTracer (qemu/s2e/Plugins/ExecutionTracers/MemoryTracer.cpp)\<close>

subsection \<open>Data\<close>

text \<open>
  The configuration keys read by \<open>MemoryTracer::initialize\<close> through
  \<open>s2e()->getConfig()\<close>.
\<close>

record ConfigFile =
  cfg_monitorStack :: bool
  cfg_catchAccessesAbove :: u64
  cfg_timeTrigger :: u64
  cfg_monitorMemory :: bool
  cfg_monitorPageFaults :: bool
  cfg_monitorTlbMisses :: bool

text \<open>
  The member functions that \<open>enableTracing\<close> connects to the signals of the core
  plugin. A signal keeps its slots in connection order, and connecting a slot twice
  makes it run twice, so the connected slots are a list.
\<close>

datatype slot = SlotOnDataMemoryAccess | SlotOnPageFault | SlotOnTlbMiss

text \<open>
  Modelled from the spec: MemoryTracer.h is not part of the sources, so the types of the
  members are those of FilterConfig in the specification (\<open>catchAccessesAbove\<close> and
  \<open>timeTriggerTicks\<close> are u64, the tick count of Pending is u64). The last two fields
  are the plugin's subscriptions: \<open>m_timerConnection\<close> is True while the connection
  to \<open>onTimer\<close> made by \<open>initialize\<close> is live, and \<open>connectedSlots\<close> holds
  the slots connected to the event signals of the core plugin.
\<close>

record MemoryTracer =
  m_monitorStack :: bool
  m_catchAbove :: u64
  m_timeTrigger :: u64
  m_elapsedTics :: u64
  m_monitorMemory :: bool
  m_monitorPageFaults :: bool
  m_monitorTlbMisses :: bool
  m_timerConnection :: bool
  connectedSlots :: "slot list"

text \<open>The part of \<open>S2EExecutionState\<close> that the tracer reads.\<close>

record S2EExecutionState =
  getPc :: u64
  getSp :: u64

text \<open>
  A \<open>klee::ref<klee::Expr>\<close> as far as the tracer looks at it: it is a
  \<open>ConstantExpr\<close> of some bit width with a value (read by \<open>getZExtValue(64)\<close>), or it
  is some other, symbolic expression of some bit width. The code casts to
  \<open>ConstantExpr\<close> and reads the value only after \<open>isa<klee::ConstantExpr>\<close> has
  succeeded, so the value given below for a symbolic expression is never used.
\<close>

datatype Expr = ConstantExpr nat u64 | SymbolicExpr nat

fun isaConstantExpr :: "Expr \<Rightarrow> bool" where
  "isaConstantExpr (ConstantExpr w v) = True"
| "isaConstantExpr (SymbolicExpr w) = False"

fun getWidth :: "Expr \<Rightarrow> nat" where
  "getWidth (ConstantExpr w v) = w"
| "getWidth (SymbolicExpr w) = w"

fun getZExtValue :: "Expr \<Rightarrow> u64" where
  "getZExtValue (ConstantExpr w v) = v"
| "getZExtValue (SymbolicExpr w) = 0"

text \<open>
  Modelled from the spec: \<open>klee::Expr::getMinBytesForWidth\<close> is not part of the
  sources; the specification calls it the minimal byte width required to represent the
  value, which for a width of \<open>w\<close> bits is \<open>w\<close> divided by 8, rounded up. The
  result is stored in the one-byte \<open>size\<close> field.
\<close>

definition getMinBytesForWidth :: "nat \<Rightarrow> u8" where
  "getMinBytesForWidth w = of_nat ((w + 7) div 8)"

text \<open>
  Modelled from the spec: the flag bits of TraceEntries.h are not part of the sources;
  the specification gives \<open>flags = isWrite<<0 | isIO<<1\<close>.
\<close>

definition EXECTRACE_MEM_WRITE :: u8 where
  "EXECTRACE_MEM_WRITE = 1"

definition EXECTRACE_MEM_IO :: u8 where
  "EXECTRACE_MEM_IO = 2"

text \<open>The three fixed-size trace items and the kind each is written under.\<close>

datatype TraceItem =
    ExecutionTraceMemory u64 u64 u64 u8 u8
  | ExecutionTraceTlbMiss u64 u64 bool
  | ExecutionTracePageFault u64 u64 bool

datatype TraceType = TRACE_MEMORY | TRACE_TLBMISS | TRACE_PAGEFAULT

text \<open>
  The sink \<open>ExecutionTracer\<close> is an append-only stream: \<open>writeData\<close> appends one
  item, tagged with the execution state it comes from and with its kind.
\<close>

type_synonym ExecutionTracer = "(S2EExecutionState \<times> TraceItem \<times> TraceType) list"

definition writeData ::
  "ExecutionTracer \<Rightarrow> S2EExecutionState \<Rightarrow> TraceItem \<Rightarrow> TraceType \<Rightarrow> ExecutionTracer" where
  "writeData m_tracer state e ty = m_tracer @ [(state, e, ty)]"

subsection \<open>Activation\<close>

definition enableTracing :: "MemoryTracer \<Rightarrow> MemoryTracer" where
  "enableTracing this =
     this\<lparr>connectedSlots := connectedSlots this
        @ (if m_monitorMemory this then [SlotOnDataMemoryAccess] else [])
        @ (if m_monitorPageFaults this then [SlotOnPageFault] else [])
        @ (if m_monitorTlbMisses this then [SlotOnTlbMiss] else [])\<rparr>"

definition initialize :: "ConfigFile \<Rightarrow> MemoryTracer" where
  "initialize cfg =
     (let this = \<lparr>m_monitorStack = cfg_monitorStack cfg,
                  m_catchAbove = cfg_catchAccessesAbove cfg,
                  m_timeTrigger = cfg_timeTrigger cfg,
                  m_elapsedTics = 0,
                  m_monitorMemory = cfg_monitorMemory cfg,
                  m_monitorPageFaults = cfg_monitorPageFaults cfg,
                  m_monitorTlbMisses = cfg_monitorTlbMisses cfg,
                  m_timerConnection = False,
                  connectedSlots = []\<rparr>
      in if m_timeTrigger this = 0 then enableTracing this
         else this\<lparr>m_timerConnection := True\<rparr>)"






subsection \<open>Event filter and recorder\<close>

text \<open>
  In \<open>state->getSp() & ~0x3FFFF\<close> the literal is an \<open>int\<close>; its complement is
  sign-extended to 64 bits, which is the complement of the 64-bit constant.
\<close>

definition decideTracing :: "MemoryTracer \<Rightarrow> S2EExecutionState \<Rightarrow> u64 \<Rightarrow> u64 \<Rightarrow> bool" where
  "decideTracing this state addr data =
     (if addr < m_catchAbove this then False
      else if m_monitorStack this then
        (if (getSp state AND NOT 0x3FFFF) = (addr AND NOT 0x3FFFF) then True else False)
      else True)"

definition onDataMemoryAccess ::
  "MemoryTracer \<Rightarrow> ExecutionTracer \<Rightarrow> S2EExecutionState \<Rightarrow> Expr \<Rightarrow> Expr \<Rightarrow> Expr \<Rightarrow> bool \<Rightarrow> bool
     \<Rightarrow> ExecutionTracer" where
  "onDataMemoryAccess this m_tracer state address hostAddress val isWrite isIO =
     (if \<not> isaConstantExpr address \<or> \<not> isaConstantExpr val then m_tracer
      else
        let addr = getZExtValue address;
            v = getZExtValue val
        in if decideTracing this state addr v then
             writeData m_tracer state
               (ExecutionTraceMemory (getPc state) addr v
                  (getMinBytesForWidth (getWidth val))
                  ((of_bool isWrite * EXECTRACE_MEM_WRITE) OR (of_bool isIO * EXECTRACE_MEM_IO)))
               TRACE_MEMORY
           else m_tracer)"

definition onTlbMiss ::
  "MemoryTracer \<Rightarrow> ExecutionTracer \<Rightarrow> S2EExecutionState \<Rightarrow> u64 \<Rightarrow> bool \<Rightarrow> ExecutionTracer" where
  "onTlbMiss this m_tracer state addr is_write =
     writeData m_tracer state (ExecutionTraceTlbMiss (getPc state) addr is_write) TRACE_TLBMISS"

definition onPageFault ::
  "MemoryTracer \<Rightarrow> ExecutionTracer \<Rightarrow> S2EExecutionState \<Rightarrow> u64 \<Rightarrow> bool \<Rightarrow> ExecutionTracer" where
  "onPageFault this m_tracer state addr is_write =
     writeData m_tracer state (ExecutionTracePageFault (getPc state) addr is_write) TRACE_PAGEFAULT"

subsection \<open>Example configurations\<close>



definition cfgStack :: ConfigFile where
  "cfgStack = \<lparr>cfg_monitorStack = True, cfg_catchAccessesAbove = 0, cfg_timeTrigger = 0,
     cfg_monitorMemory = True, cfg_monitorPageFaults = False, cfg_monitorTlbMisses = False\<rparr>"

section \<open>Library (tools/lib/BinaryReaders/Library.cpp)\<close>

subsection \<open>Data and collaborators\<close>

text \<open>
  An \<open>ExecutableFile *\<close> that is not null identifies one parsed executable; the null
  pointer is \<open>None\<close> wherever the code tests for it.
\<close>

type_synonym ExecutableFile = nat

record ModuleInstance =
  Name :: string
  LoadBase :: u64
  ImageBase :: u64

text \<open>
  The collaborators the library calls, as they answer during one call of a member
  function: whether \<open>std::ifstream\<close> opens a path, what
  \<open>ExecutableFile::create\<close> returns for a path (null as \<open>None\<close>), and what
  \<open>ExecutableFile::getInfo\<close> returns for a handle and an address (false as
  \<open>None\<close>, otherwise the file, line and function it stores).
\<close>

record Environment =
  ifstream_is_open :: "string \<Rightarrow> bool"
  ExecutableFile_create :: "string \<Rightarrow> ExecutableFile option"
  ExecutableFile_getInfo :: "ExecutableFile \<Rightarrow> u64 \<Rightarrow> (string \<times> u64 \<times> string) option"

datatype Call =
    IfstreamOpen string
  | ExecutableFileCreate string
  | ExecutableFileGetInfo ExecutableFile u64

text \<open>
  The members of \<open>Library\<close>: the search path, the map from absolute path to parsed
  executable and the set of paths that failed to parse. The field \<open>calls\<close> is not a
  member: it records, in order, every call the library has made to a collaborator, so
  that what the code asks of the file system and of the parser can be stated.
\<close>

record Library =
  m_libpath :: "string list"
  m_libraries :: "string \<rightharpoonup> ExecutableFile"
  m_badLibraries :: "string set"
  calls :: "Call list"

definition Library_new :: Library where
  "Library_new = \<lparr>m_libpath = [], m_libraries = Map.empty, m_badLibraries = {}, calls = []\<rparr>"

subsection \<open>Owner translation\<close>

text \<open>
  \<open>KernelStart\<close> is the command-line option \<open>-os\<close>; it is a parameter here, and
  \<open>KernelStart_init\<close> is the value it is initialised with.
\<close>

definition KernelStart_init :: u64 where
  "KernelStart_init = 0x80000000"

definition translatePid :: "u64 \<Rightarrow> u64 \<Rightarrow> u64 \<Rightarrow> u64" where
  "translatePid KernelStart pid pc = (if pc \<ge> KernelStart then 0 else pid)"

subsection \<open>Path search\<close>

text \<open>
  \<open>s.find(c, pos)\<close>: the first index at or after \<open>pos\<close> that holds \<open>c\<close>;
  \<open>std::string::npos\<close> is \<open>None\<close>.
\<close>

definition string_find :: "string \<Rightarrow> char \<Rightarrow> nat \<Rightarrow> nat option" where
  "string_find s c pos =
     (case filter (\<lambda>i. s ! i = c) [pos..<length s] of [] \<Rightarrow> None | i # _ \<Rightarrow> Some i)"

text \<open>
  The loop of \<open>setPath\<close>. With \<open>cur\<close> at \<open>npos\<close> the length \<open>cur - prev\<close> given to
  \<open>substr\<close> wraps to a value beyond the end of the string, so the piece is the rest of
  the string. \<open>prev\<close> never exceeds the length of the string, so \<open>substr\<close> does not
  throw. What the function prints to \<open>std::cout\<close> is left out.
\<close>

function setPath_loop :: "string \<Rightarrow> nat \<Rightarrow> string list \<Rightarrow> string list" where
  "setPath_loop s prev libpath =
     (case string_find s CHR '':'' prev of
        None \<Rightarrow> libpath @ [drop prev s]
      | Some cur \<Rightarrow> setPath_loop s (cur + 1) (libpath @ [take (cur - prev) (drop prev s)]))"
  by pat_completeness auto
termination
proof (relation "measure (\<lambda>(s, prev, libpath). length s - prev)")
  show "wf (measure (\<lambda>(s, prev, libpath). length s - prev))" by simp
next
  fix s :: string and prev cur :: nat and libpath :: "string list"
  assume "string_find s CHR '':'' prev = Some cur"
  then obtain rest where "filter (\<lambda>i. s ! i = CHR '':'') [prev..<length s] = cur # rest"
    by (auto simp add: string_find_def split: list.splits)
  then have "cur \<in> set (filter (\<lambda>i. s ! i = CHR '':'') [prev..<length s])" by simp
  then have "prev \<le> cur \<and> cur < length s" by simp
  then show "((s, cur + 1, libpath @ [take (cur - prev) (drop prev s)]), (s, prev, libpath))
      \<in> measure (\<lambda>(s, prev, libpath). length s - prev)"
    by auto
qed

definition setPath :: "Library \<Rightarrow> string \<Rightarrow> Library" where
  "setPath this s = this\<lparr>m_libpath := setPath_loop s 0 (m_libpath this)\<rparr>"

fun findLibrary_loop ::
  "Environment \<Rightarrow> string list \<Rightarrow> string \<Rightarrow> Call list \<Rightarrow> string option \<times> Call list" where
  "findLibrary_loop env [] libName cs = (None, cs)"
| "findLibrary_loop env (dir # dirs) libName cs =
     (let s = dir @ ''/'' @ libName;
          cs1 = cs @ [IfstreamOpen s]
      in if ifstream_is_open env s then (Some s, cs1)
         else findLibrary_loop env dirs libName cs1)"

text \<open>The result is the path stored in \<open>abspath\<close> when the function returns true.\<close>

definition findLibrary :: "Environment \<Rightarrow> Library \<Rightarrow> string \<Rightarrow> string option \<times> Library" where
  "findLibrary env this libName =
     (case findLibrary_loop env (m_libpath this) libName (calls this) of
        (r, cs) \<Rightarrow> (r, this\<lparr>calls := cs\<rparr>))"

subsection \<open>Module cache\<close>

definition addLibraryAbs :: "Environment \<Rightarrow> Library \<Rightarrow> string \<Rightarrow> bool \<times> Library" where
  "addLibraryAbs env this libName =
     (if m_libraries this libName \<noteq> None then (True, this)
      else if libName \<in> m_badLibraries this then (False, this)
      else
        let this1 = this\<lparr>calls := calls this @ [ExecutableFileCreate libName]\<rparr>
        in case ExecutableFile_create env libName of
             None \<Rightarrow> (False, this1\<lparr>m_badLibraries := insert libName (m_badLibraries this1)\<rparr>)
           | Some exec \<Rightarrow> (True, this1\<lparr>m_libraries := (m_libraries this1)(libName \<mapsto> exec)\<rparr>))"

definition addLibrary :: "Environment \<Rightarrow> Library \<Rightarrow> string \<Rightarrow> bool \<times> Library" where
  "addLibrary env this libName =
     (case findLibrary env this libName of
        (None, this1) \<Rightarrow> (False, this1)
      | (Some s, this1) \<Rightarrow> addLibraryAbs env this1 s)"

definition get :: "Environment \<Rightarrow> Library \<Rightarrow> string \<Rightarrow> ExecutableFile option \<times> Library" where
  "get env this name =
     (case findLibrary env this name of
        (None, this1) \<Rightarrow> (None, this1)
      | (Some s, this1) \<Rightarrow>
          (case addLibraryAbs env this1 s of
             (False, this2) \<Rightarrow> (None, this2)
           | (True, this2) \<Rightarrow> (m_libraries this2 s, this2)))"

subsection \<open>Address resolver\<close>

text \<open>
  \<open>getInfo\<close> returns true with \<open>file\<close>, \<open>line\<close> and \<open>func\<close> stored by the
  parser, or false: the result is the stored triple or \<open>None\<close>. A null
  \<open>ModuleInstance\<close> pointer is \<open>None\<close>.
\<close>

definition getInfo ::
  "Environment \<Rightarrow> Library \<Rightarrow> ModuleInstance option \<Rightarrow> u64
     \<Rightarrow> (string \<times> u64 \<times> string) option \<times> Library" where
  "getInfo env this mi pc =
     (case mi of
        None \<Rightarrow> (None, this)
      | Some m \<Rightarrow>
          (case get env this (Name m) of
             (None, this1) \<Rightarrow> (None, this1)
           | (Some exec, this1) \<Rightarrow>
               let reladdr = pc - LoadBase m + ImageBase m
               in (ExecutableFile_getInfo env exec reladdr,
                   this1\<lparr>calls := calls this1 @ [ExecutableFileGetInfo exec reladdr]\<rparr>)))"

text \<open>An unsigned integer as \<open>operator<<\<close> writes it: in decimal.\<close>

fun decimal :: "nat \<Rightarrow> string" where
  "decimal n =
     (if n < 10 then [''0123456789'' ! n]
      else decimal (n div 10) @ [''0123456789'' ! (n mod 10)])"

text \<open>
  The \<open>print\<close> that takes the module by name and bases; the result is the string
  stored in \<open>out\<close> when the function returns true.
\<close>

definition print_named ::
  "Environment \<Rightarrow> Library \<Rightarrow> string \<Rightarrow> u64 \<Rightarrow> u64 \<Rightarrow> u64 \<Rightarrow> bool \<Rightarrow> bool \<Rightarrow> bool
     \<Rightarrow> string option \<times> Library" where
  "print_named env this modName loadBase imageBase pc file line func =
     (case get env this modName of
        (None, this1) \<Rightarrow> (None, this1)
      | (Some exec, this1) \<Rightarrow>
          let reladdr = pc - loadBase + imageBase;
              this2 = this1\<lparr>calls := calls this1 @ [ExecutableFileGetInfo exec reladdr]\<rparr>
          in case ExecutableFile_getInfo env exec reladdr of
               None \<Rightarrow> (None, this2)
             | Some (source, ln, function) \<Rightarrow>
                 (Some ((if file then source else [])
                        @ (if line then '':'' @ decimal (unat ln) else [])
                        @ (if func then '' - '' @ function else [])),
                  this2))"

definition print ::
  "Environment \<Rightarrow> Library \<Rightarrow> ModuleInstance option \<Rightarrow> u64 \<Rightarrow> bool \<Rightarrow> bool \<Rightarrow> bool
     \<Rightarrow> string option \<times> Library" where
  "print env this mi pc file line func =
     (case mi of
        None \<Rightarrow> (None, this)
      | Some m \<Rightarrow> print_named env this (Name m) (LoadBase m) (ImageBase m) pc file line func)"

subsection \<open>Sequences of calls\<close>

text \<open>
  The public member functions as calls. A run is a sequence of calls, each with the
  answers of the collaborators at the time of that call, so the file system may change
  between calls.
\<close>

datatype LibraryCall =
    CallSetPath string
  | CallFindLibrary string
  | CallAddLibrary string
  | CallAddLibraryAbs string
  | CallGet string
  | CallGetInfo "ModuleInstance option" u64
  | CallPrintNamed string u64 u64 u64 bool bool bool
  | CallPrint "ModuleInstance option" u64 bool bool bool

fun perform :: "Library \<Rightarrow> Environment \<times> LibraryCall \<Rightarrow> Library" where
  "perform this (env, CallSetPath s) = setPath this s"
| "perform this (env, CallFindLibrary n) = snd (findLibrary env this n)"
| "perform this (env, CallAddLibrary n) = snd (addLibrary env this n)"
| "perform this (env, CallAddLibraryAbs p) = snd (addLibraryAbs env this p)"
| "perform this (env, CallGet n) = snd (get env this n)"
| "perform this (env, CallGetInfo mi pc) = snd (getInfo env this mi pc)"
| "perform this (env, CallPrintNamed n lb ib pc f l fn) = snd (print_named env this n lb ib pc f l fn)"
| "perform this (env, CallPrint mi pc f l fn) = snd (print env this mi pc f l fn)"

definition run :: "Library \<Rightarrow> (Environment \<times> LibraryCall) list \<Rightarrow> Library" where
  "run this cs = foldl perform this cs"

declare setPath_loop.simps [simp del]
declare decimal.simps [simp del]

subsection \<open>Reading the record of calls\<close>

text \<open>
  The paths given to \<open>ExecutableFile::create\<close>, and the handles and addresses given
  to \<open>ExecutableFile::getInfo\<close>, in the order of the calls.
\<close>

fun created :: "Call list \<Rightarrow> string list" where
  "created [] = []"
| "created (ExecutableFileCreate p # cs) = p # created cs"
| "created (IfstreamOpen p # cs) = created cs"
| "created (ExecutableFileGetInfo e a # cs) = created cs"

fun lookups :: "Call list \<Rightarrow> (ExecutableFile \<times> u64) list" where
  "lookups [] = []"
| "lookups (ExecutableFileGetInfo e a # cs) = (e, a) # lookups cs"
| "lookups (IfstreamOpen p # cs) = lookups cs"
| "lookups (ExecutableFileCreate p # cs) = lookups cs"

subsection \<open>Example environment\<close>

text \<open>
  A file system with one library, \<open>/lib/libc.so\<close>, which parses to the handle 7 and
  has debug information for one address, and one file, \<open>/lib/junk.bin\<close>, which does
  not parse.
\<close>

definition envExample :: Environment where
  "envExample =
     \<lparr>ifstream_is_open = (\<lambda>p. p = ''/lib/libc.so'' \<or> p = ''/lib/junk.bin''),
      ExecutableFile_create = (\<lambda>p. if p = ''/lib/libc.so'' then Some 7 else None),
      ExecutableFile_getInfo =
        (\<lambda>e a. if e = 7 \<and> a = 0x400050 then Some (''main.c'', 42, ''main'') else None)\<rparr>"

definition libExample :: Library where
  "libExample = setPath Library_new ''/usr/lib:/lib''"

text \<open>
  The same file system at a later time: every path opens and every file parses, to the
  handle 9.
\<close>

definition envChanged :: Environment where
  "envChanged =
     \<lparr>ifstream_is_open = (\<lambda>p. True),
      ExecutableFile_create = (\<lambda>p. Some 9),
      ExecutableFile_getInfo = (\<lambda>e a. None)\<rparr>"

section \<open>Properties of the memory tracer\<close>

subsection \<open>The activation gate, tick by tick\<close>









text \<open>
  C1. The claim is that with \<open>monitorStack\<close> set and the address at or above the floor,
  the filter accepts exactly when address and stack pointer agree after masking with
  \<open>~0x1FFF\<close> (the same 8 KiB region), as the comment in \<open>decideTracing\<close> says
  (a stack that is 8k and 8k-aligned). The code masks with \<open>~0x3FFFF\<close>, a 256 KiB
  region: the address \<open>0x2000\<close> and the stack pointer \<open>0\<close> lie in different 8 KiB
  regions, and the access is accepted all the same.
\<close>

theorem decideTracing_accepts_across_8k_regions:
  "decideTracing (initialize cfgStack) \<lparr>getPc = 0, getSp = 0\<rparr> 0x2000 0x42
   \<and> m_monitorStack (initialize cfgStack)
   \<and> \<not> 0x2000 < m_catchAbove (initialize cfgStack)
   \<and> (0x2000 AND NOT 0x1FFF :: u64) \<noteq> (getSp \<lparr>getPc = 0, getSp = 0\<rparr> AND NOT 0x1FFF)"
  by (simp add: decideTracing_def initialize_def enableTracing_def cfgStack_def)

lemma decideTracing_monitorStack:
  "m_monitorStack this \<Longrightarrow> \<not> addr < m_catchAbove this \<Longrightarrow>
     decideTracing this state addr data \<longleftrightarrow> (addr AND NOT 0x3FFFF) = (getSp state AND NOT 0x3FFFF)"
  by (auto simp add: decideTracing_def)






text \<open>
  C6. A memory access whose address or whose value is not a \<open>ConstantExpr\<close> leaves the
  sink as it is: no item is built or written, whatever the filter would say, and the
  function returns normally.
\<close>

theorem onDataMemoryAccess_symbolic_dropped:
  "\<not> isaConstantExpr address \<or> \<not> isaConstantExpr val \<Longrightarrow>
     onDataMemoryAccess this m_tracer state address hostAddress val isWrite isIO = m_tracer"
  by (simp add: onDataMemoryAccess_def)

theorem onDataMemoryAccess_symbolic_dropped_witness:
  "\<not> isaConstantExpr (SymbolicExpr 32)
   \<and> onDataMemoryAccess (initialize cfgStack) [] \<lparr>getPc = 0x401000, getSp = 0x2100\<rparr>
        (SymbolicExpr 32) (ConstantExpr 64 0) (ConstantExpr 8 0x42) True False = []
   \<and> \<not> isaConstantExpr (SymbolicExpr 8)
   \<and> onDataMemoryAccess (initialize cfgStack) [] \<lparr>getPc = 0x401000, getSp = 0x2100\<rparr>
        (ConstantExpr 32 0x2000) (ConstantExpr 64 0) (SymbolicExpr 8) True False = []
   \<and> onDataMemoryAccess (initialize cfgStack) [] \<lparr>getPc = 0x401000, getSp = 0x2100\<rparr>
        (ConstantExpr 32 0x2000) (ConstantExpr 64 0) (ConstantExpr 8 0x42) True False
       = [(\<lparr>getPc = 0x401000, getSp = 0x2100\<rparr>,
           ExecutionTraceMemory 0x401000 0x2000 0x42 1 1, TRACE_MEMORY)]"
proof -
  have s: "\<not> isaConstantExpr (SymbolicExpr 32)" "\<not> isaConstantExpr (SymbolicExpr 8)" by simp_all
  have "onDataMemoryAccess (initialize cfgStack) [] \<lparr>getPc = 0x401000, getSp = 0x2100\<rparr>
        (SymbolicExpr 32) (ConstantExpr 64 0) (ConstantExpr 8 0x42) True False = []"
    by (rule onDataMemoryAccess_symbolic_dropped) simp
  moreover have "onDataMemoryAccess (initialize cfgStack) [] \<lparr>getPc = 0x401000, getSp = 0x2100\<rparr>
        (ConstantExpr 32 0x2000) (ConstantExpr 64 0) (SymbolicExpr 8) True False = []"
    by (rule onDataMemoryAccess_symbolic_dropped) simp
  moreover have "onDataMemoryAccess (initialize cfgStack) [] \<lparr>getPc = 0x401000, getSp = 0x2100\<rparr>
        (ConstantExpr 32 0x2000) (ConstantExpr 64 0) (ConstantExpr 8 0x42) True False
       = [(\<lparr>getPc = 0x401000, getSp = 0x2100\<rparr>,
           ExecutionTraceMemory 0x401000 0x2000 0x42 1 1, TRACE_MEMORY)]"
    by (simp add: onDataMemoryAccess_def decideTracing_def initialize_def enableTracing_def
        cfgStack_def writeData_def getMinBytesForWidth_def EXECTRACE_MEM_WRITE_def EXECTRACE_MEM_IO_def)
  ultimately show ?thesis using s by simp
qed

text \<open>
  C8. \<open>onTlbMiss\<close> and \<open>onPageFault\<close> append exactly one item
  \<open>{pc, address, isWrite}\<close> of the matching kind to the sink, for every plugin state:
  neither \<open>m_catchAbove\<close> nor \<open>m_monitorStack\<close> is consulted.
\<close>

theorem tlbMiss_pageFault_always_recorded:
  "onTlbMiss this m_tracer state addr is_write
     = m_tracer @ [(state, ExecutionTraceTlbMiss (getPc state) addr is_write, TRACE_TLBMISS)]
   \<and> onPageFault this m_tracer state addr is_write
     = m_tracer @ [(state, ExecutionTracePageFault (getPc state) addr is_write, TRACE_PAGEFAULT)]"
  by (simp add: onTlbMiss_def onPageFault_def writeData_def)

section \<open>Properties of the library\<close>

subsection \<open>What each member function leaves alone\<close>

lemma created_append: "created (xs @ ys) = created xs @ created ys"
  by (induction xs rule: created.induct) simp_all

lemma lookups_append: "lookups (xs @ ys) = lookups xs @ lookups ys"
  by (induction xs rule: lookups.induct) simp_all

lemma findLibrary_loop_created:
  "created (snd (findLibrary_loop env dirs n cs)) = created cs"
  by (induction dirs arbitrary: cs) (simp_all add: Let_def created_append)

lemma findLibrary_loop_lookups:
  "lookups (snd (findLibrary_loop env dirs n cs)) = lookups cs"
  by (induction dirs arbitrary: cs) (simp_all add: Let_def lookups_append)

lemma findLibrary_frame:
  assumes "findLibrary env this n = (r, this1)"
  shows "m_libraries this1 = m_libraries this"
    and "m_badLibraries this1 = m_badLibraries this"
    and "created (calls this1) = created (calls this)"
    and "lookups (calls this1) = lookups (calls this)"
proof -
  obtain r' cs where loop: "findLibrary_loop env (m_libpath this) n (calls this) = (r', cs)"
    by (cases "findLibrary_loop env (m_libpath this) n (calls this)")
  with assms have eq: "this1 = this\<lparr>calls := cs\<rparr>"
    by (simp add: findLibrary_def)
  from loop have "cs = snd (findLibrary_loop env (m_libpath this) n (calls this))" by simp
  then have "created cs = created (calls this)" and "lookups cs = lookups (calls this)"
    by (simp_all add: findLibrary_loop_created findLibrary_loop_lookups)
  with eq show "m_libraries this1 = m_libraries this"
    and "m_badLibraries this1 = m_badLibraries this"
    and "created (calls this1) = created (calls this)"
    and "lookups (calls this1) = lookups (calls this)"
    by simp_all
qed

lemma addLibraryAbs_lookups:
  "lookups (calls (snd (addLibraryAbs env this p))) = lookups (calls this)"
  by (simp add: addLibraryAbs_def Let_def lookups_append split: option.splits)

lemma get_cases:
  assumes "get env this n = (r, this2)"
  obtains (notfound) "findLibrary env this n = (None, this2)" and "r = None"
  | (found) s this1 b where "findLibrary env this n = (Some s, this1)"
      and "addLibraryAbs env this1 s = (b, this2)"
      and "r = (if b then m_libraries this2 s else None)"
proof (cases "findLibrary env this n")
  case (Pair fr this1)
  show ?thesis
  proof (cases fr)
    case None
    with Pair assms have "this2 = this1" and "r = None" by (simp_all add: get_def)
    with Pair None show ?thesis by (intro notfound) simp_all
  next
    case (Some s)
    obtain b t where add: "addLibraryAbs env this1 s = (b, t)"
      by (cases "addLibraryAbs env this1 s")
    with Pair Some assms have "this2 = t" and "r = (if b then m_libraries t s else None)"
      by (cases b; simp add: get_def)+
    with Pair Some add show ?thesis by (intro found [of s this1 b]) simp_all
  qed
qed

lemma get_lookups:
  assumes "get env this n = (r, this2)"
  shows "lookups (calls this2) = lookups (calls this)"
  using assms
proof (cases rule: get_cases)
  case notfound
  then show ?thesis by (simp add: findLibrary_frame(4))
next
  case (found s this1 b)
  have "lookups (calls this2) = lookups (calls (snd (addLibraryAbs env this1 s)))"
    using found(2) by simp
  also have "\<dots> = lookups (calls this1)" by (rule addLibraryAbs_lookups)
  also have "\<dots> = lookups (calls this)" using found(1) by (rule findLibrary_frame(4))
  finally show ?thesis .
qed

subsection \<open>Invariants of the module cache\<close>

text \<open>
  A property that depends on the two caches and on the parser calls only, and that
  \<open>addLibraryAbs\<close> preserves, is preserved by every member function.
\<close>

lemma get_preserves:
  assumes frame: "\<And>a b. m_libraries a = m_libraries b \<Longrightarrow> m_badLibraries a = m_badLibraries b
            \<Longrightarrow> created (calls a) = created (calls b) \<Longrightarrow> P a \<Longrightarrow> P b"
    and add: "\<And>env a p. P a \<Longrightarrow> P (snd (addLibraryAbs env a p))"
    and "P this"
  shows "P (snd (get env this n))"
proof -
  obtain r this2 where g: "get env this n = (r, this2)" by (cases "get env this n")
  from g have "P this2"
  proof (cases rule: get_cases)
    case notfound
    from findLibrary_frame(1-3) [OF notfound(1)] \<open>P this\<close> show ?thesis
      by (intro frame [of this this2]) simp_all
  next
    case (found s this1 b)
    from findLibrary_frame(1-3) [OF found(1)] \<open>P this\<close> have "P this1"
      by (intro frame [of this this1]) simp_all
    then have "P (snd (addLibraryAbs env this1 s))" by (rule add)
    with found(2) show ?thesis by simp
  qed
  with g show ?thesis by simp
qed

lemma print_named_frame:
  assumes "get env this n = (r, this1)"
  shows "m_libraries (snd (print_named env this n lb ib pc f l fn)) = m_libraries this1"
    and "m_badLibraries (snd (print_named env this n lb ib pc f l fn)) = m_badLibraries this1"
    and "created (calls (snd (print_named env this n lb ib pc f l fn))) = created (calls this1)"
proof -
  have "m_libraries (snd (print_named env this n lb ib pc f l fn)) = m_libraries this1
    \<and> m_badLibraries (snd (print_named env this n lb ib pc f l fn)) = m_badLibraries this1
    \<and> created (calls (snd (print_named env this n lb ib pc f l fn))) = created (calls this1)"
  proof (cases r)
    case None
    with assms show ?thesis by (simp add: print_named_def)
  next
    case (Some exec)
    show ?thesis
    proof (cases "ExecutableFile_getInfo env exec (pc - lb + ib)")
      case None
      with Some assms show ?thesis by (simp add: print_named_def created_append)
    next
      case found: (Some triple)
      obtain source ln fname where "triple = (source, ln, fname)" by (cases triple)
      with found Some assms show ?thesis by (simp add: print_named_def created_append)
    qed
  qed
  then show "m_libraries (snd (print_named env this n lb ib pc f l fn)) = m_libraries this1"
    and "m_badLibraries (snd (print_named env this n lb ib pc f l fn)) = m_badLibraries this1"
    and "created (calls (snd (print_named env this n lb ib pc f l fn))) = created (calls this1)"
    by simp_all
qed

lemma getInfo_frame:
  assumes "get env this (Name m) = (r, this1)"
  shows "m_libraries (snd (getInfo env this (Some m) pc)) = m_libraries this1"
    and "m_badLibraries (snd (getInfo env this (Some m) pc)) = m_badLibraries this1"
    and "created (calls (snd (getInfo env this (Some m) pc))) = created (calls this1)"
proof -
  have "m_libraries (snd (getInfo env this (Some m) pc)) = m_libraries this1
    \<and> m_badLibraries (snd (getInfo env this (Some m) pc)) = m_badLibraries this1
    \<and> created (calls (snd (getInfo env this (Some m) pc))) = created (calls this1)"
  proof (cases r)
    case None
    with assms show ?thesis by (simp add: getInfo_def)
  next
    case (Some exec)
    with assms show ?thesis by (simp add: getInfo_def Let_def created_append)
  qed
  then show "m_libraries (snd (getInfo env this (Some m) pc)) = m_libraries this1"
    and "m_badLibraries (snd (getInfo env this (Some m) pc)) = m_badLibraries this1"
    and "created (calls (snd (getInfo env this (Some m) pc))) = created (calls this1)"
    by simp_all
qed

lemma perform_preserves:
  assumes frame: "\<And>a b. m_libraries a = m_libraries b \<Longrightarrow> m_badLibraries a = m_badLibraries b
            \<Longrightarrow> created (calls a) = created (calls b) \<Longrightarrow> P a \<Longrightarrow> P b"
    and add: "\<And>env a p. P a \<Longrightarrow> P (snd (addLibraryAbs env a p))"
    and "P this"
  shows "P (perform this ec)"
proof -
  obtain env c where ec: "ec = (env, c)" by (cases ec)
  have getP: "\<And>n. P (snd (get env this n))"
    using frame add \<open>P this\<close> by (rule get_preserves)
  have named: "\<And>n lb ib pc f l fn. P (snd (print_named env this n lb ib pc f l fn))"
  proof -
    fix n lb ib pc f l fn
    obtain r this1 where g: "get env this n = (r, this1)" by (cases "get env this n")
    with getP [of n] have p1: "P this1" by simp
    from print_named_frame [OF g] p1
    show "P (snd (print_named env this n lb ib pc f l fn))"
      by (intro frame [of this1 "snd (print_named env this n lb ib pc f l fn)"]) simp_all
  qed
  show ?thesis
  proof (cases c)
    case (CallSetPath s)
    have "P (setPath this s)"
      using \<open>P this\<close> by (intro frame [of this "setPath this s"]) (simp_all add: setPath_def)
    with ec CallSetPath show ?thesis by simp
  next
    case (CallFindLibrary n)
    obtain r this1 where f: "findLibrary env this n = (r, this1)"
      by (cases "findLibrary env this n")
    from findLibrary_frame(1-3) [OF f] \<open>P this\<close> have "P this1"
      by (intro frame [of this this1]) simp_all
    with ec CallFindLibrary f show ?thesis by simp
  next
    case (CallAddLibrary n)
    obtain r this1 where f: "findLibrary env this n = (r, this1)"
      by (cases "findLibrary env this n")
    from findLibrary_frame(1-3) [OF f] \<open>P this\<close> have p1: "P this1"
      by (intro frame [of this this1]) simp_all
    have "P (snd (addLibrary env this n))"
    proof (cases r)
      case None
      with f p1 show ?thesis by (simp add: addLibrary_def)
    next
      case (Some s)
      with f add [OF p1, of env s] show ?thesis by (simp add: addLibrary_def)
    qed
    with ec CallAddLibrary show ?thesis by simp
  next
    case (CallAddLibraryAbs p)
    with ec add [OF \<open>P this\<close>, of env p] show ?thesis by simp
  next
    case (CallGet n)
    with ec getP [of n] show ?thesis by simp
  next
    case (CallGetInfo mi pc)
    have "P (snd (getInfo env this mi pc))"
    proof (cases mi)
      case None
      with \<open>P this\<close> show ?thesis by (simp add: getInfo_def)
    next
      case (Some m)
      obtain r this1 where g: "get env this (Name m) = (r, this1)"
        by (cases "get env this (Name m)")
      with getP [of "Name m"] have p1: "P this1" by simp
      from getInfo_frame [OF g, of pc] p1 Some show ?thesis
        by (intro frame [of this1 "snd (getInfo env this mi pc)"]) simp_all
    qed
    with ec CallGetInfo show ?thesis by simp
  next
    case (CallPrintNamed n lb ib pc f l fn)
    with ec named [of n lb ib pc f l fn] show ?thesis by simp
  next
    case (CallPrint mi pc f l fn)
    have "P (snd (print env this mi pc f l fn))"
    proof (cases mi)
      case None
      with \<open>P this\<close> show ?thesis by (simp add: print_def)
    next
      case (Some m)
      with named [of "Name m" "LoadBase m" "ImageBase m" pc f l fn] show ?thesis
        by (simp add: print_def)
    qed
    with ec CallPrint show ?thesis by simp
  qed
qed

lemma run_preserves:
  assumes frame: "\<And>a b. m_libraries a = m_libraries b \<Longrightarrow> m_badLibraries a = m_badLibraries b
            \<Longrightarrow> created (calls a) = created (calls b) \<Longrightarrow> P a \<Longrightarrow> P b"
    and add: "\<And>env a p. P a \<Longrightarrow> P (snd (addLibraryAbs env a p))"
  shows "P this \<Longrightarrow> P (run this cs)"
proof (induction cs arbitrary: this)
  case Nil
  then show ?case by (simp add: run_def)
next
  case (Cons c cs)
  from frame add Cons.prems have "P (perform this c)" by (rule perform_preserves)
  then have "P (run (perform this c) cs)" by (rule Cons.IH)
  then show ?case by (simp add: run_def)
qed

lemma addLibraryAbs_hit:
  "m_libraries this q \<noteq> None \<or> q \<in> m_badLibraries this \<Longrightarrow>
     snd (addLibraryAbs env this q) = this"
  by (auto simp add: addLibraryAbs_def)

lemma addLibraryAbs_miss:
  assumes "m_libraries this q = None" and "q \<notin> m_badLibraries this"
  shows "addLibraryAbs env this q =
     (case ExecutableFile_create env q of
        None \<Rightarrow> (False, this\<lparr>calls := calls this @ [ExecutableFileCreate q],
                            m_badLibraries := insert q (m_badLibraries this)\<rparr>)
      | Some exec \<Rightarrow> (True, this\<lparr>calls := calls this @ [ExecutableFileCreate q],
                              m_libraries := (m_libraries this)(q \<mapsto> exec)\<rparr>))"
  using assms by (simp add: addLibraryAbs_def Let_def split: option.splits)

lemma addLibraryAbs_disjoint:
  assumes "dom (m_libraries this) \<inter> m_badLibraries this = {}"
  shows "dom (m_libraries (snd (addLibraryAbs env this p)))
           \<inter> m_badLibraries (snd (addLibraryAbs env this p)) = {}"
proof (cases "m_libraries this p \<noteq> None \<or> p \<in> m_badLibraries this")
  case True
  with assms show ?thesis by (simp add: addLibraryAbs_hit)
next
  case False
  then have miss: "m_libraries this p = None" "p \<notin> m_badLibraries this" by simp_all
  then have "p \<notin> dom (m_libraries this)" by (simp add: domIff)
  with assms miss(2) show ?thesis
    by (cases "ExecutableFile_create env p") (auto simp add: addLibraryAbs_miss [OF miss])
qed

lemma addLibraryAbs_parsed_once:
  assumes "count_list (created (calls this)) p = 0
     \<or> (count_list (created (calls this)) p = 1
         \<and> (m_libraries this p \<noteq> None \<or> p \<in> m_badLibraries this))"
  shows "count_list (created (calls (snd (addLibraryAbs env this q)))) p = 0
     \<or> (count_list (created (calls (snd (addLibraryAbs env this q)))) p = 1
         \<and> (m_libraries (snd (addLibraryAbs env this q)) p \<noteq> None
             \<or> p \<in> m_badLibraries (snd (addLibraryAbs env this q))))"
proof (cases "m_libraries this q \<noteq> None \<or> q \<in> m_badLibraries this")
  case True
  with assms show ?thesis by (simp add: addLibraryAbs_hit)
next
  case False
  then have miss: "m_libraries this q = None" "q \<notin> m_badLibraries this" by simp_all
  show ?thesis
  proof (cases "q = p")
    case True
    with miss have missp: "m_libraries this p = None" "p \<notin> m_badLibraries this" by simp_all
    with assms have zero: "count_list (created (calls this)) p = 0" by auto
    show ?thesis
    proof (cases "ExecutableFile_create env p")
      case None
      with True zero show ?thesis by (simp add: addLibraryAbs_miss [OF missp] created_append)
    next
      case (Some exec)
      with True zero show ?thesis by (simp add: addLibraryAbs_miss [OF missp] created_append)
    qed
  next
    case neq: False
    show ?thesis
    proof (cases "ExecutableFile_create env q")
      case None
      with neq assms show ?thesis by (simp add: addLibraryAbs_miss [OF miss] created_append)
    next
      case (Some exec)
      with neq assms show ?thesis by (simp add: addLibraryAbs_miss [OF miss] created_append)
    qed
  qed
qed

subsection \<open>The example environment, evaluated\<close>

lemma libExample_path: "m_libpath libExample = [''/usr/lib'', ''/lib'']"
  by (simp add: libExample_def setPath_def Library_new_def setPath_loop.simps string_find_def
      upt_conv_Cons)

lemma libExample_caches:
  "m_libraries libExample = Map.empty" "m_badLibraries libExample = {}" "calls libExample = []"
  by (simp_all add: libExample_def setPath_def Library_new_def)

lemma get_libc_example:
  "get envExample libExample ''libc.so''
     = (Some 7, libExample\<lparr>calls := [IfstreamOpen ''/usr/lib/libc.so'', IfstreamOpen ''/lib/libc.so'',
                                       ExecutableFileCreate ''/lib/libc.so''],
                          m_libraries := [''/lib/libc.so'' \<mapsto> 7]\<rparr>)"
  by (simp add: get_def findLibrary_def addLibraryAbs_def libExample_path libExample_caches
      envExample_def Let_def)

text \<open>
  C4. \<open>addLibraryAbs\<close> answers from the caches: a path that is a key of
  \<open>m_libraries\<close> gives true, a path that is only in \<open>m_badLibraries\<close> gives
  false, and in both cases nothing changes and the parser is not called. A path in
  neither cache is given to \<open>ExecutableFile::create\<close> exactly once; the outcome is
  whether that call succeeded, and the path is stored in \<open>m_libraries\<close> with its handle
  on success and in \<open>m_badLibraries\<close> on failure. So after any call the path is in one
  of the caches, and the outcome is true exactly when it is a key of \<open>m_libraries\<close>.
  Calling \<open>addLibraryAbs\<close> twice in succession for the same path gives the same outcome
  both times, and the second call changes nothing, in every state of the cache and
  whatever the parser would answer at the time of either call. Along any sequence of
  calls of the member functions, counted from a state in which no call has been
  recorded, \<open>ExecutableFile::create\<close> is called at most once for any one path, and a
  path it has been called for is in one of the caches.
\<close>

theorem addLibraryAbs_idempotent_and_parses_once:
  "fst (addLibraryAbs env2 (snd (addLibraryAbs env1 this p)) p) = fst (addLibraryAbs env1 this p)
   \<and> snd (addLibraryAbs env2 (snd (addLibraryAbs env1 this p)) p) = snd (addLibraryAbs env1 this p)
   \<and> count_list (created (calls (run (this\<lparr>calls := []\<rparr>) cs))) p \<le> 1
   \<and> (m_libraries this p \<noteq> None \<longrightarrow> addLibraryAbs env1 this p = (True, this))
   \<and> (m_libraries this p = None \<and> p \<in> m_badLibraries this \<longrightarrow>
        addLibraryAbs env1 this p = (False, this))
   \<and> (m_libraries this p = None \<and> p \<notin> m_badLibraries this \<longrightarrow>
        calls (snd (addLibraryAbs env1 this p)) = calls this @ [ExecutableFileCreate p]
        \<and> m_libpath (snd (addLibraryAbs env1 this p)) = m_libpath this
        \<and> fst (addLibraryAbs env1 this p) = (ExecutableFile_create env1 p \<noteq> None)
        \<and> m_libraries (snd (addLibraryAbs env1 this p))
            = (case ExecutableFile_create env1 p of
                 None \<Rightarrow> m_libraries this
               | Some exec \<Rightarrow> (m_libraries this)(p \<mapsto> exec))
        \<and> m_badLibraries (snd (addLibraryAbs env1 this p))
            = (case ExecutableFile_create env1 p of
                 None \<Rightarrow> insert p (m_badLibraries this)
               | Some exec \<Rightarrow> m_badLibraries this))
   \<and> (m_libraries (snd (addLibraryAbs env1 this p)) p \<noteq> None
        \<or> p \<in> m_badLibraries (snd (addLibraryAbs env1 this p)))
   \<and> (fst (addLibraryAbs env1 this p)
        \<longleftrightarrow> m_libraries (snd (addLibraryAbs env1 this p)) p \<noteq> None)
   \<and> (count_list (created (calls (run (this\<lparr>calls := []\<rparr>) cs))) p = 1 \<longrightarrow>
        m_libraries (run (this\<lparr>calls := []\<rparr>) cs) p \<noteq> None
        \<or> p \<in> m_badLibraries (run (this\<lparr>calls := []\<rparr>) cs))"
proof -
  have pos: "addLibraryAbs env1 this p = (True, this)" if "m_libraries this p \<noteq> None"
    using that by (simp add: addLibraryAbs_def)
  have neg: "addLibraryAbs env1 this p = (False, this)"
    if "m_libraries this p = None \<and> p \<in> m_badLibraries this"
    using that by (simp add: addLibraryAbs_def)
  have miss: "calls (snd (addLibraryAbs env1 this p)) = calls this @ [ExecutableFileCreate p]
        \<and> m_libpath (snd (addLibraryAbs env1 this p)) = m_libpath this
        \<and> fst (addLibraryAbs env1 this p) = (ExecutableFile_create env1 p \<noteq> None)
        \<and> m_libraries (snd (addLibraryAbs env1 this p))
            = (case ExecutableFile_create env1 p of
                 None \<Rightarrow> m_libraries this
               | Some exec \<Rightarrow> (m_libraries this)(p \<mapsto> exec))
        \<and> m_badLibraries (snd (addLibraryAbs env1 this p))
            = (case ExecutableFile_create env1 p of
                 None \<Rightarrow> insert p (m_badLibraries this)
               | Some exec \<Rightarrow> m_badLibraries this)"
    if "m_libraries this p = None \<and> p \<notin> m_badLibraries this"
  proof -
    from that have m: "m_libraries this p = None" "p \<notin> m_badLibraries this" by simp_all
    show ?thesis
      by (cases "ExecutableFile_create env1 p") (simp_all add: addLibraryAbs_miss [OF m])
  qed
  have cached: "m_libraries (snd (addLibraryAbs env1 this p)) p \<noteq> None
        \<or> p \<in> m_badLibraries (snd (addLibraryAbs env1 this p))"
  proof (cases "m_libraries this p \<noteq> None \<or> p \<in> m_badLibraries this")
    case True
    then show ?thesis by (simp add: addLibraryAbs_hit)
  next
    case False
    then have "m_libraries this p = None \<and> p \<notin> m_badLibraries this" by simp
    from miss [OF this] show ?thesis
      by (cases "ExecutableFile_create env1 p") simp_all
  qed
  have outcome: "fst (addLibraryAbs env1 this p)
        \<longleftrightarrow> m_libraries (snd (addLibraryAbs env1 this p)) p \<noteq> None"
  proof (cases "m_libraries this p")
    case (Some exec)
    then show ?thesis by (simp add: addLibraryAbs_def)
  next
    case None
    show ?thesis
    proof (cases "p \<in> m_badLibraries this")
      case True
      with None show ?thesis by (simp add: addLibraryAbs_def)
    next
      case False
      with None have "m_libraries this p = None \<and> p \<notin> m_badLibraries this" by simp
      from miss [OF this] None show ?thesis
        by (cases "ExecutableFile_create env1 p") simp_all
    qed
  qed
  have twice: "addLibraryAbs env2 (snd (addLibraryAbs env1 this p)) p
      = (fst (addLibraryAbs env1 this p), snd (addLibraryAbs env1 this p))"
  proof (cases "fst (addLibraryAbs env1 this p)")
    case True
    with outcome show ?thesis by (simp add: addLibraryAbs_def)
  next
    case False
    with outcome cached show ?thesis by (simp add: addLibraryAbs_def)
  qed
  let ?P = "\<lambda>t. count_list (created (calls t)) p = 0
     \<or> (count_list (created (calls t)) p = 1
         \<and> (m_libraries t p \<noteq> None \<or> p \<in> m_badLibraries t))"
  have inv: "?P (run (this\<lparr>calls := []\<rparr>) cs)"
  proof (rule run_preserves [where P = ?P])
    fix a b :: Library
    assume "m_libraries a = m_libraries b" "m_badLibraries a = m_badLibraries b"
      "created (calls a) = created (calls b)" "?P a"
    then show "?P b" by simp
  next
    fix env and a :: Library and q
    assume "?P a"
    then show "?P (snd (addLibraryAbs env a q))" by (rule addLibraryAbs_parsed_once)
  next
    show "?P (this\<lparr>calls := []\<rparr>)" by simp
  qed
  then have once: "count_list (created (calls (run (this\<lparr>calls := []\<rparr>) cs))) p \<le> 1"
    by auto
  from inv have parsed: "m_libraries (run (this\<lparr>calls := []\<rparr>) cs) p \<noteq> None
        \<or> p \<in> m_badLibraries (run (this\<lparr>calls := []\<rparr>) cs)"
    if "count_list (created (calls (run (this\<lparr>calls := []\<rparr>) cs))) p = 1"
    using that by simp
  from twice have t1: "fst (addLibraryAbs env2 (snd (addLibraryAbs env1 this p)) p)
      = fst (addLibraryAbs env1 this p)"
    and t2: "snd (addLibraryAbs env2 (snd (addLibraryAbs env1 this p)) p)
      = snd (addLibraryAbs env1 this p)"
    by simp_all
  from t1 t2 once pos neg miss cached outcome parsed show ?thesis
    by blast
qed

theorem addLibraryAbs_idempotent_and_parses_once_witness:
  "addLibraryAbs envExample libExample ''/lib/libc.so''
     = (True, libExample\<lparr>calls := [ExecutableFileCreate ''/lib/libc.so''],
                          m_libraries := [''/lib/libc.so'' \<mapsto> 7]\<rparr>)
   \<and> addLibraryAbs envChanged
        (libExample\<lparr>calls := [ExecutableFileCreate ''/lib/libc.so''],
                    m_libraries := [''/lib/libc.so'' \<mapsto> 7]\<rparr>) ''/lib/libc.so''
     = (True, libExample\<lparr>calls := [ExecutableFileCreate ''/lib/libc.so''],
                          m_libraries := [''/lib/libc.so'' \<mapsto> 7]\<rparr>)
   \<and> addLibraryAbs envExample libExample ''/lib/junk.bin''
     = (False, libExample\<lparr>calls := [ExecutableFileCreate ''/lib/junk.bin''],
                           m_badLibraries := {''/lib/junk.bin''}\<rparr>)
   \<and> addLibraryAbs envChanged
        (libExample\<lparr>calls := [ExecutableFileCreate ''/lib/junk.bin''],
                    m_badLibraries := {''/lib/junk.bin''}\<rparr>) ''/lib/junk.bin''
     = (False, libExample\<lparr>calls := [ExecutableFileCreate ''/lib/junk.bin''],
                           m_badLibraries := {''/lib/junk.bin''}\<rparr>)
   \<and> fst (addLibraryAbs envChanged (snd (addLibraryAbs envExample libExample ''/lib/junk.bin''))
          ''/lib/junk.bin'') = False
   \<and> created (calls (run (libExample\<lparr>calls := []\<rparr>)
          [(envExample, CallGet ''libc.so''), (envChanged, CallAddLibraryAbs ''/lib/libc.so''),
           (envChanged, CallGet ''libc.so'')])) = [''/lib/libc.so'', ''/usr/lib/libc.so'']
   \<and> count_list (created (calls (run (libExample\<lparr>calls := []\<rparr>)
          [(envExample, CallGet ''libc.so''), (envChanged, CallAddLibraryAbs ''/lib/libc.so''),
           (envChanged, CallGet ''libc.so'')]))) ''/lib/libc.so'' \<le> 1"
proof -
  let ?pos = "libExample\<lparr>calls := [ExecutableFileCreate ''/lib/libc.so''],
                          m_libraries := [''/lib/libc.so'' \<mapsto> 7]\<rparr>"
  let ?neg = "libExample\<lparr>calls := [ExecutableFileCreate ''/lib/junk.bin''],
                          m_badLibraries := {''/lib/junk.bin''}\<rparr>"
  let ?cs = "[(envExample, CallGet ''libc.so''), (envChanged, CallAddLibraryAbs ''/lib/libc.so''),
           (envChanged, CallGet ''libc.so'')]"
  have good: "addLibraryAbs envExample libExample ''/lib/libc.so'' = (True, ?pos)"
    by (simp add: addLibraryAbs_def libExample_caches envExample_def Let_def)
  have bad: "addLibraryAbs envExample libExample ''/lib/junk.bin'' = (False, ?neg)"
    by (simp add: addLibraryAbs_def libExample_caches envExample_def Let_def)
  have hp: "m_libraries ?pos ''/lib/libc.so'' \<noteq> None" by simp
  have hn: "m_libraries ?neg ''/lib/junk.bin'' = None \<and> ''/lib/junk.bin'' \<in> m_badLibraries ?neg"
    by (simp add: libExample_caches)
  note pos = addLibraryAbs_idempotent_and_parses_once [of envChanged envChanged ?pos
      "''/lib/libc.so''" "[]"]
  note neg = addLibraryAbs_idempotent_and_parses_once [of envChanged envChanged ?neg
      "''/lib/junk.bin''" "[]"]
  have cpos: "addLibraryAbs envChanged ?pos ''/lib/libc.so'' = (True, ?pos)"
    using pos hp by blast
  have cneg: "addLibraryAbs envChanged ?neg ''/lib/junk.bin'' = (False, ?neg)"
    using neg hn by blast
  have twice: "fst (addLibraryAbs envChanged
       (snd (addLibraryAbs envExample libExample ''/lib/junk.bin'')) ''/lib/junk.bin'') = False"
    using addLibraryAbs_idempotent_and_parses_once [of envChanged envExample libExample
        "''/lib/junk.bin''" "[]"] bad
    by simp
  have once: "count_list (created (calls (run (libExample\<lparr>calls := []\<rparr>) ?cs))) ''/lib/libc.so'' \<le> 1"
    using addLibraryAbs_idempotent_and_parses_once [of envExample envExample libExample
        "''/lib/libc.so''" ?cs]
    by blast
  have trace: "created (calls (run (libExample\<lparr>calls := []\<rparr>) ?cs))
      = [''/lib/libc.so'', ''/usr/lib/libc.so'']"
    by (simp add: run_def get_def findLibrary_def addLibraryAbs_def libExample_path
        libExample_caches envExample_def envChanged_def Let_def)
  from good cpos bad cneg twice trace once show ?thesis by simp
qed

text \<open>
  C5. \<open>getInfo\<close> with a module instance asks \<open>ExecutableFile::getInfo\<close> exactly one
  question when the module resolves to a parsed executable, and none otherwise; the
  address asked is \<open>pc - LoadBase + ImageBase\<close> in 64-bit arithmetic, with no range
  check, and the answer is passed on as it is. With \<open>LoadBase = 0x1000\<close>,
  \<open>ImageBase = 0x400000\<close> and \<open>pc = 0x1050\<close> the address asked is
  \<open>0x400050\<close>.
\<close>

theorem getInfo_relative_address:
  "lookups (calls (snd (getInfo env this (Some m) pc)))
     = lookups (calls this)
       @ (case fst (get env this (Name m)) of
            None \<Rightarrow> []
          | Some exec \<Rightarrow> [(exec, pc - LoadBase m + ImageBase m)])
   \<and> fst (getInfo env this (Some m) pc)
     = (case fst (get env this (Name m)) of
          None \<Rightarrow> None
        | Some exec \<Rightarrow> ExecutableFile_getInfo env exec (pc - LoadBase m + ImageBase m))
   \<and> lookups (calls (snd (getInfo env this
         (Some \<lparr>Name = n, LoadBase = 0x1000, ImageBase = 0x400000\<rparr>) 0x1050)))
     = lookups (calls this)
       @ (case fst (get env this n) of None \<Rightarrow> [] | Some exec \<Rightarrow> [(exec, 0x400050)])"
proof -
  have general: "lookups (calls (snd (getInfo env this (Some m') pc')))
     = lookups (calls this)
       @ (case fst (get env this (Name m')) of
            None \<Rightarrow> []
          | Some exec \<Rightarrow> [(exec, pc' - LoadBase m' + ImageBase m')])
   \<and> fst (getInfo env this (Some m') pc')
     = (case fst (get env this (Name m')) of
          None \<Rightarrow> None
        | Some exec \<Rightarrow> ExecutableFile_getInfo env exec (pc' - LoadBase m' + ImageBase m'))"
    for m' pc'
  proof -
    obtain r this1 where g: "get env this (Name m') = (r, this1)"
      by (cases "get env this (Name m')")
    then have l: "lookups (calls this1) = lookups (calls this)" by (rule get_lookups)
    show ?thesis
    proof (cases r)
      case None
      with g l show ?thesis by (simp add: getInfo_def)
    next
      case (Some exec)
      with g l show ?thesis by (simp add: getInfo_def Let_def lookups_append)
    qed
  qed
  from general [of m pc]
    general [of "\<lparr>Name = n, LoadBase = 0x1000, ImageBase = 0x400000\<rparr>" "0x1050"]
  show ?thesis by (simp split: option.splits)
qed

theorem getInfo_relative_address_witness:
  "fst (get envExample libExample ''libc.so'') = Some 7
   \<and> lookups (calls (snd (getInfo envExample libExample
         (Some \<lparr>Name = ''libc.so'', LoadBase = 0x1000, ImageBase = 0x400000\<rparr>) 0x1050)))
       = [(7, 0x400050)]
   \<and> fst (getInfo envExample libExample
         (Some \<lparr>Name = ''libc.so'', LoadBase = 0x1000, ImageBase = 0x400000\<rparr>) 0x1050)
       = Some (''main.c'', 42, ''main'')
   \<and> lookups (calls (snd (getInfo envExample libExample
         (Some \<lparr>Name = ''libc.so'', LoadBase = 0x2000, ImageBase = 0\<rparr>) 0x1000)))
       = [(7, 0xFFFFFFFFFFFFF000)]
   \<and> fst (get envExample libExample ''missing.so'') = None
   \<and> lookups (calls (snd (getInfo envExample libExample
         (Some \<lparr>Name = ''missing.so'', LoadBase = 0x1000, ImageBase = 0x400000\<rparr>) 0x1050)))
       = []"
proof -
  have g: "fst (get envExample libExample ''libc.so'') = Some 7"
    by (simp add: get_libc_example)
  have e: "ExecutableFile_getInfo envExample 7 0x400050 = Some (''main.c'', 42, ''main'')"
    by (simp add: envExample_def)
  have miss: "fst (get envExample libExample ''missing.so'') = None"
    by (simp add: get_def findLibrary_def libExample_path envExample_def Let_def)
  from g e miss
    getInfo_relative_address [of envExample libExample
      "\<lparr>Name = ''libc.so'', LoadBase = 0x1000, ImageBase = 0x400000\<rparr>" "0x1050" "''libc.so''"]
    getInfo_relative_address [of envExample libExample
      "\<lparr>Name = ''libc.so'', LoadBase = 0x2000, ImageBase = 0\<rparr>" "0x1000" "''libc.so''"]
    getInfo_relative_address [of envExample libExample
      "\<lparr>Name = ''missing.so'', LoadBase = 0x1000, ImageBase = 0x400000\<rparr>" "0x1050" "''missing.so''"]
  show ?thesis by (simp add: libExample_caches)
qed

text \<open>
  C7. \<open>translatePid\<close> returns 0 when \<open>pc\<close> is at or above the kernel boundary and
  \<open>pid\<close> otherwise; with the boundary the option is initialised with,
  \<open>0x80000000\<close>, pid 7 at \<open>0x7FFFFFFF\<close> stays 7 and pid 7 at \<open>0x80000000\<close>
  becomes 0.
\<close>

theorem translatePid_boundary:
  "(KernelStart \<le> pc \<longrightarrow> translatePid KernelStart pid pc = 0)
   \<and> (pc < KernelStart \<longrightarrow> translatePid KernelStart pid pc = pid)
   \<and> KernelStart_init = 0x80000000
   \<and> translatePid KernelStart_init 7 0x7FFFFFFF = 7
   \<and> translatePid KernelStart_init 7 0x80000000 = 0"
  by (auto simp add: translatePid_def KernelStart_init_def)

theorem translatePid_boundary_witness:
  "(0xC0000000 :: u64) \<le> 0xC0000000
   \<and> translatePid 0xC0000000 12 0xC0000000 = 0
   \<and> (0xBFFFFFFF :: u64) < 0xC0000000
   \<and> translatePid 0xC0000000 12 0xBFFFFFFF = 12"
proof -
  have a: "(0xC0000000 :: u64) \<le> 0xC0000000" and b: "(0xBFFFFFFF :: u64) < 0xC0000000"
    by simp_all
  from translatePid_boundary [of "0xC0000000" "0xC0000000" 12, THEN conjunct1, rule_format, OF a]
    translatePid_boundary [of "0xC0000000" "0xBFFFFFFF" 12, THEN conjunct2, THEN conjunct1,
      rule_format, OF b]
    a b
  show ?thesis by simp
qed

text \<open>
  C9. With a null \<open>ModuleInstance\<close> pointer, \<open>getInfo\<close> and \<open>print\<close> return
  false and leave the library as it is: the search path, both caches and the record of
  calls to the file system and to the parser are unchanged.
\<close>

theorem null_module_instance_rejected:
  "getInfo env this None pc = (None, this)
   \<and> print env this None pc file line func = (None, this)"
  by (simp add: getInfo_def print_def)

text \<open>
  C10. Starting from the empty library, after any sequence of calls of \<open>setPath\<close>,
  \<open>findLibrary\<close>, \<open>addLibrary\<close>, \<open>addLibraryAbs\<close>, \<open>get\<close>, \<open>getInfo\<close> and
  \<open>print\<close>, whatever the file system and the parser answer at each call, no path is
  both a key of \<open>m_libraries\<close> and a member of \<open>m_badLibraries\<close>.
\<close>

theorem caches_disjoint:
  "dom (m_libraries (run Library_new cs)) \<inter> m_badLibraries (run Library_new cs) = {}"
proof (rule run_preserves [where P = "\<lambda>t. dom (m_libraries t) \<inter> m_badLibraries t = {}"])
  fix a b :: Library
  assume "m_libraries a = m_libraries b" "m_badLibraries a = m_badLibraries b"
    "dom (m_libraries a) \<inter> m_badLibraries a = {}"
  then show "dom (m_libraries b) \<inter> m_badLibraries b = {}" by simp
next
  fix env and a :: Library and p
  assume "dom (m_libraries a) \<inter> m_badLibraries a = {}"
  then show "dom (m_libraries (snd (addLibraryAbs env a p)))
      \<inter> m_badLibraries (snd (addLibraryAbs env a p)) = {}"
    by (rule addLibraryAbs_disjoint)
next
  show "dom (m_libraries Library_new) \<inter> m_badLibraries Library_new = {}"
    by (simp add: Library_new_def)
qed

end
